theory Spec2Isabelle
  imports Main "HOL-Library.AList"
begin

section \<open>MapBoard.tsx: the data of the component\<close>

text \<open>
  \<^verbatim>\<open>STYLES\<close> (lines 14-17), \<^verbatim>\<open>StyleKey\<close> (line 18) and \<^verbatim>\<open>LayerKey\<close> (line 20).
\<close>

datatype StyleKey = terrain | dark

datatype LayerKey = departments | communes | sections

fun STYLES :: "StyleKey \<Rightarrow> string" where
  "STYLES terrain = ''/styles/opentopo.json''"
| "STYLES dark = ''/styles/carto-dark.json''"

text \<open>
  The value of \<^verbatim>\<open>fetch(url).then(r => r.json())\<close>: the promise is rejected when the
  request or the decoding fails, and is fulfilled with the feature collection otherwise.
  The collection is opaque to the component.
\<close>

datatype geojson = GeoJSON string

datatype error = FetchFailed | DecodeFailed | TypeError

type_synonym fetched = "error + geojson"

subsection \<open>The rendering engine, as the calls the component issues to it\<close>

text \<open>
  maplibre-gl is outside the repository. A map instance is modelled by the style it was
  created with and the sequence of calls the component has issued to it, in order; what
  the component reads back (\<^verbatim>\<open>getLayer\<close>, \<^verbatim>\<open>queryRenderedFeatures\<close>) is computed
  from that sequence. Paint properties are static and left out.
\<close>

datatype kind = fill | line

datatype call =
    AddControl string
  | On string
  | AddSource string geojson
  | AddLayer string kind string
  | SetLayoutProperty string string string
  | SetCursor string
  | Remove

text \<open>
  The progress of the \<^verbatim>\<open>load\<close> handler of one map (lines 47-101): the engine has not
  signalled \<^verbatim>\<open>load\<close> yet, the handler is suspended at its three awaits, or the handler
  has returned or was rejected.
\<close>

datatype progress = Creating | Fetching | Finished

text \<open>
  One run of the effect (lines 31-104) creates one map; \<open>closure_visible\<close> is the value of
  \<^verbatim>\<open>visible\<close> of the render that ran the effect, which the load handler reads at line 80.
\<close>

record surface =
  style :: string
  closure_visible :: "(LayerKey \<times> bool) list"
  progress :: progress
  calls :: "call list"

definition issue :: "call \<Rightarrow> surface \<Rightarrow> surface" where
  "issue c s = s\<lparr>calls := calls s @ [c]\<rparr>"

definition addControl :: "string \<Rightarrow> surface \<Rightarrow> surface" where
  "addControl c = issue (AddControl c)"

definition on :: "string \<Rightarrow> surface \<Rightarrow> surface" where
  "on ev = issue (On ev)"

definition addSource :: "string \<Rightarrow> geojson \<Rightarrow> surface \<Rightarrow> surface" where
  "addSource i d = issue (AddSource i d)"

definition addLayer :: "string \<Rightarrow> kind \<Rightarrow> string \<Rightarrow> surface \<Rightarrow> surface" where
  "addLayer i k src = issue (AddLayer i k src)"

definition setLayoutProperty :: "string \<Rightarrow> string \<Rightarrow> string \<Rightarrow> surface \<Rightarrow> surface" where
  "setLayoutProperty i p v = issue (SetLayoutProperty i p v)"

definition setCursor :: "string \<Rightarrow> surface \<Rightarrow> surface" where
  "setCursor c = issue (SetCursor c)"

definition remove :: "surface \<Rightarrow> surface" where
  "remove = issue Remove"

fun layer_of :: "call \<Rightarrow> string list" where
  "layer_of (AddLayer i k src) = [i]"
| "layer_of c = []"

fun source_of :: "call \<Rightarrow> string list" where
  "source_of (AddSource i d) = [i]"
| "source_of c = []"

fun layout_of :: "call \<Rightarrow> (string \<times> string) list" where
  "layout_of (SetLayoutProperty i p v) = [(i, v)]"
| "layout_of c = []"


text \<open>The ids of the layers registered on a map, bottom of the paint stack first.\<close>

definition layer_ids :: "surface \<Rightarrow> string list" where
  "layer_ids s = concat (map layer_of (calls s))"

definition source_ids :: "surface \<Rightarrow> string list" where
  "source_ids s = concat (map source_of (calls s))"

text \<open>The \<^verbatim>\<open>setLayoutProperty(id, "visibility", v)\<close> calls issued to a map, in order.\<close>

definition layout_calls :: "surface \<Rightarrow> (string \<times> string) list" where
  "layout_calls s = concat (map layout_of (calls s))"

definition getLayer :: "surface \<Rightarrow> string \<Rightarrow> bool" where
  "getLayer s i = (i \<in> set (layer_ids s))"

definition removed :: "surface \<Rightarrow> bool" where
  "removed s = (Remove \<in> set (calls s))"

text \<open>
  Modelled from the spec: the engine's \<^verbatim>\<open>visibility\<close> layout property, which is
  outside the repository (section 6: \<^verbatim>\<open>setLayoutProperty(layerId, "visibility", ...)\<close>).
  A layer is painted unless the last visibility pushed for it is \<^verbatim>\<open>none\<close>.
\<close>

definition shown :: "surface \<Rightarrow> string \<Rightarrow> bool" where
  "shown s i = (case filter (\<lambda>(j, v). j = i) (rev (layout_calls s)) of
                  [] \<Rightarrow> True
                | (j, v) # rest \<Rightarrow> v \<noteq> ''none'')"


text \<open>
  A feature as the hover handler reads it: the id of the layer that painted it and
  \<^verbatim>\<open>properties?.name\<close>. A pointer event carries the pointer's position and, for each
  layer id, the names of the features of that layer lying under the pointer.
\<close>

record feature =
  layer_id :: string
  name :: "string option"

type_synonym lnglat = "int \<times> int"

record mouse_event =
  lngLat :: lnglat
  under :: "string \<Rightarrow> string option list"

text \<open>
  Modelled from the spec: the engine's \<^verbatim>\<open>queryRenderedFeatures(point, {layers})\<close>, which
  is outside the repository. By section 4.5 later-registered layers paint on top, and by
  section 4.7 the first feature of the result is the engine-reported topmost one: the
  engine reports the features painted at the point by the layers named in the filter, the
  topmost layer's features first; a hidden layer paints nothing.
\<close>

definition queryRenderedFeatures :: "surface \<Rightarrow> mouse_event \<Rightarrow> string list \<Rightarrow> feature list" where
  "queryRenderedFeatures s e layers =
     concat (map (\<lambda>i. if i \<in> set layers \<and> shown s i
                       then map (\<lambda>n. \<lparr>layer_id = i, name = n\<rparr>) (under e i) else [])
                 (rev (layer_ids s)))"

section \<open>The component\<close>

text \<open>
  A \<^verbatim>\<open>Popup\<close> object (line 83): its position, its content and the map it is attached to.
\<close>

record popup =
  at :: "lnglat option"
  html :: string
  onMap :: "nat option"

definition new_Popup :: popup where
  "new_Popup = \<lparr>at = None, html = [], onMap = None\<rparr>"

text \<open>
  The refs and the state of lines 23-29. Map instances are named by their index in
  \<open>surfaces\<close>, in creation order, and \<^verbatim>\<open>Popup\<close> objects by their index in \<open>popups\<close>:
  every run of line 83 allocates a new object, and \<open>popupRef\<close> holds the one the ref
  points to, while the objects it pointed to before stay as they are. \<open>cleanup\<close> is the map
  captured by the cleanup function that the last run of the effect returned (line 103), if
  that run returned one. \<^verbatim>\<open>visible\<close> is an object: its keys in insertion order, each with
  its value. What the engine does to the popups of a map on \<^verbatim>\<open>map.remove()\<close> is not
  modelled.
\<close>

record state =
  base :: StyleKey
  visible :: "(LayerKey \<times> bool) list"
  containerRef :: bool
  mapRef :: "nat option"
  popupRef :: "nat option"
  popups :: "popup list"
  cleanup :: "nat option"
  surfaces :: "surface list"

definition initial :: state where
  "initial = \<lparr>base = terrain,
              visible = [(departments, True), (communes, False), (sections, True)],
              containerRef = False, mapRef = None, popupRef = None, popups = [],
              cleanup = None, surfaces = []\<rparr>"

text \<open>\<^verbatim>\<open>o[k]\<close> used as a condition: a missing key reads as \<^verbatim>\<open>undefined\<close>, which is falsy.\<close>

definition get :: "(LayerKey \<times> bool) list \<Rightarrow> LayerKey \<Rightarrow> bool" where
  "get o' k = (case map_of o' k of None \<Rightarrow> False | Some b \<Rightarrow> b)"

definition on_surface :: "nat \<Rightarrow> (surface \<Rightarrow> surface) \<Rightarrow> state \<Rightarrow> state" where
  "on_surface m f st = st\<lparr>surfaces := (surfaces st)[m := f (surfaces st ! m)]\<rparr>"

definition on_popup :: "nat \<Rightarrow> (popup \<Rightarrow> popup) \<Rightarrow> state \<Rightarrow> state" where
  "on_popup p f st = st\<lparr>popups := (popups st)[p := f (popups st ! p)]\<rparr>"


subsection \<open>The effect, lines 31-104\<close>

definition new_Map :: "StyleKey \<Rightarrow> (LayerKey \<times> bool) list \<Rightarrow> surface" where
  "new_Map b vis = \<lparr>style = STYLES b, closure_visible = vis, progress = Creating, calls = []\<rparr>"

text \<open>The body of the effect up to the registration of the load handler (lines 32-47).\<close>

definition useEffect :: "state \<Rightarrow> state" where
  "useEffect st =
     (if \<not> containerRef st then st\<lparr>cleanup := None\<rparr>
      else let m = length (surfaces st);
               map0 = new_Map (base st) (visible st);
               map1 = addControl ''NavigationControl'' map0;
               map2 = addControl ''ScaleControl'' map1;
               map3 = on ''load'' map2
           in st\<lparr>mapRef := Some m, cleanup := Some m, surfaces := surfaces st @ [map3]\<rparr>)"

text \<open>Line 103: the cleanup removes the map its own run of the effect created.\<close>

definition run_cleanup :: "state \<Rightarrow> state" where
  "run_cleanup st = (case cleanup st of None \<Rightarrow> st | Some m \<Rightarrow> on_surface m remove st)"

text \<open>
  A render in which a dependency of line 104 has changed: the previous cleanup runs, then
  the effect.
\<close>

definition rerun :: "state \<Rightarrow> state" where
  "rerun st = useEffect (run_cleanup st)"

text \<open>The first render: the container element is attached, then the effect runs.\<close>

definition mounted :: state where
  "mounted = useEffect (initial\<lparr>containerRef := True\<rparr>)"

subsection \<open>The load handler, lines 47-101\<close>

definition apply_ids :: "LayerKey \<Rightarrow> string list" where
  "apply_ids k = (if k = departments then [''departments-fill'', ''departments-outline'']
                  else if k = communes then [''communes-outline'']
                  else [''sections-fill'', ''sections-outline''])"

definition apply_vis :: "LayerKey \<Rightarrow> bool \<Rightarrow> surface \<Rightarrow> surface" where
  "apply_vis k on' s =
     fold (\<lambda>i. setLayoutProperty i ''visibility'' (if on' then ''visible'' else ''none''))
          (apply_ids k) s"

definition hoverTargets :: "string list" where
  "hoverTargets = [''sections-fill'', ''departments-fill'']"

text \<open>Lines 53-80 and 86-100: what the handler does to its map once the data is there.\<close>

definition compose :: "geojson \<Rightarrow> geojson \<Rightarrow> geojson \<Rightarrow> surface \<Rightarrow> surface" where
  "compose deps coms secs s0 =
     (let s1 = addSource ''departments'' deps s0;
          s2 = addSource ''communes'' coms s1;
          s3 = addSource ''sections'' secs s2;
          s4 = addLayer ''departments-fill'' fill ''departments'' s3;
          s5 = addLayer ''departments-outline'' line ''departments'' s4;
          s6 = addLayer ''communes-outline'' line ''communes'' s5;
          s7 = addLayer ''sections-fill'' fill ''sections'' s6;
          s8 = addLayer ''sections-outline'' line ''sections'' s7;
          s9 = fold (\<lambda>k. apply_vis k (get (closure_visible s0) k))
                    (map fst (closure_visible s0)) s8;
          s10 = on ''mousemove'' s9
      in on ''mouseout'' s10)"

text \<open>
  The handler after its three awaits, which run one after the other: a rejected fetch
  rejects the handler at that await, before anything is registered. Line 83 points the
  shared ref to a new \<^verbatim>\<open>Popup\<close>.
\<close>

definition on_load :: "nat \<Rightarrow> fetched \<Rightarrow> fetched \<Rightarrow> fetched \<Rightarrow> state \<Rightarrow> error + state" where
  "on_load m r1 r2 r3 st =
     (case r1 of Inl e \<Rightarrow> Inl e | Inr deps \<Rightarrow>
      case r2 of Inl e \<Rightarrow> Inl e | Inr coms \<Rightarrow>
      case r3 of Inl e \<Rightarrow> Inl e | Inr secs \<Rightarrow>
        Inr ((on_surface m (compose deps coms secs) st)
               \<lparr>popupRef := Some (length (popups st)), popups := popups st @ [new_Popup]\<rparr>))"

subsection \<open>The hover handlers, lines 86-100\<close>

definition popup_html :: "string \<Rightarrow> string" where
  "popup_html n =
     ''<div style=\"font:600 12px Inter,system-ui;color:#111;background:#facc15;padding:4px 6px;border-radius:6px;\">''
     @ n @ ''</div>''"

text \<open>Line 94: an absent or empty name is falsy and gives the default label.\<close>

definition label :: "feature \<Rightarrow> string" where
  "label f = (case name f of None \<Rightarrow> ''Unnamed'' | Some n \<Rightarrow> if n = [] then ''Unnamed'' else n)"

text \<open>\<^verbatim>\<open>popupRef.current?.remove()\<close>: nothing happens on a null ref.\<close>

definition popup_remove :: "state \<Rightarrow> state" where
  "popup_remove st =
     (case popupRef st of None \<Rightarrow> st | Some p \<Rightarrow> on_popup p (\<lambda>q. q\<lparr>onMap := None\<rparr>) st)"

text \<open>
  The handler registered on map \<open>m\<close>. \<^verbatim>\<open>popupRef.current!.setLngLat\<close> on a null ref is
  a TypeError.
\<close>

definition on_mousemove :: "nat \<Rightarrow> mouse_event \<Rightarrow> state \<Rightarrow> error + state" where
  "on_mousemove m e st =
     (let features = queryRenderedFeatures (surfaces st ! m) e hoverTargets;
          st1 = on_surface m (setCursor (if features \<noteq> [] then ''pointer'' else [])) st
      in case features of
           [] \<Rightarrow> Inr (popup_remove st1)
         | f # rest \<Rightarrow>
             (case popupRef st1 of
                None \<Rightarrow> Inl TypeError
              | Some p \<Rightarrow> Inr (on_popup p
                    (\<lambda>q. q\<lparr>at := Some (lngLat e), html := popup_html (label f), onMap := Some m\<rparr>)
                    st1)))"

definition on_mouseout :: "state \<Rightarrow> state" where
  "on_mouseout st = popup_remove st"

subsection \<open>The controls: \<^verbatim>\<open>toggle\<close> (lines 106-119) and \<^verbatim>\<open>setBase\<close>\<close>

definition toggle_ids :: "LayerKey \<Rightarrow> string list" where
  "toggle_ids key = (if key = departments then [''departments-fill'', ''departments-outline'']
                     else if key = communes then [''communes-outline'']
                     else [''sections-fill'', ''sections-outline''])"

text \<open>
  Line 116, for one id: nothing happens when the ref is null or the map has no such layer.
\<close>

definition push :: "nat option \<Rightarrow> string \<Rightarrow> string \<Rightarrow> state \<Rightarrow> state" where
  "push mp v i st =
     (case mp of
        None \<Rightarrow> st
      | Some m \<Rightarrow> if getLayer (surfaces st ! m) i
                  then on_surface m (setLayoutProperty i ''visibility'' v) st else st)"

text \<open>
  The updater of lines 107-118 computes the next object and pushes the new visibility
  to the map of \<^verbatim>\<open>mapRef\<close>. The next object is a new object, so the dependency
  \<^verbatim>\<open>visible\<close> of line 104 has changed and the effect runs again.
\<close>

definition toggle :: "LayerKey \<Rightarrow> state \<Rightarrow> state" where
  "toggle key st =
     (let prev = visible st;
          nxt = AList.update key (\<not> get prev key) prev;
          st1 = fold (push (mapRef st) (if get nxt key then ''visible'' else ''none''))
                     (toggle_ids key) st
      in rerun (st1\<lparr>visible := nxt\<rparr>))"

text \<open>Setting the state to the value it has renders nothing anew.\<close>

definition setBase :: "StyleKey \<Rightarrow> state \<Rightarrow> state" where
  "setBase b st = (if b = base st then st else rerun (st\<lparr>base := b\<rparr>))"

subsection \<open>Runs of the component\<close>

text \<open>
  What can happen to the mounted component: the two controls, the engine signalling
  \<^verbatim>\<open>load\<close> on a live map, the three fetches of a suspended load handler completing,
  and pointer events on a live map that has the hover listeners. A rejected handler leaves
  the state as it was.
\<close>

datatype event =
    Toggle LayerKey
  | SetBase StyleKey
  | Load nat
  | Fetched nat fetched fetched fetched
  | MouseMove nat mouse_event
  | MouseOut nat

definition set_progress :: "progress \<Rightarrow> surface \<Rightarrow> surface" where
  "set_progress p s = s\<lparr>progress := p\<rparr>"

definition listening :: "state \<Rightarrow> nat \<Rightarrow> string \<Rightarrow> bool" where
  "listening st m ev =
     (m < length (surfaces st) \<and> \<not> removed (surfaces st ! m) \<and> On ev \<in> set (calls (surfaces st ! m)))"

fun step :: "state \<Rightarrow> event \<Rightarrow> state" where
  "step st (Toggle k) = toggle k st"
| "step st (SetBase b) = setBase b st"
| "step st (Load m) =
     (if listening st m ''load'' \<and> progress (surfaces st ! m) = Creating
      then on_surface m (set_progress Fetching) st else st)"
| "step st (Fetched m r1 r2 r3) =
     (if m < length (surfaces st) \<and> progress (surfaces st ! m) = Fetching
      then let st1 = on_surface m (set_progress Finished) st
           in (case on_load m r1 r2 r3 st1 of Inl e \<Rightarrow> st1 | Inr st2 \<Rightarrow> st2)
      else st)"
| "step st (MouseMove m e) =
     (if listening st m ''mousemove''
      then (case on_mousemove m e st of Inl e \<Rightarrow> st | Inr st1 \<Rightarrow> st1) else st)"
| "step st (MouseOut m) = (if listening st m ''mouseout'' then on_mouseout st else st)"

definition run :: "event list \<Rightarrow> state" where
  "run evs = foldl step mounted evs"

subsection \<open>Well-formed maps\<close>

text \<open>
  A map has no layer of the component before its load handler has finished; afterwards it
  has none (the handler was rejected) or the five of lines 58-71.
\<close>

definition bare :: "surface \<Rightarrow> bool" where
  "bare s = (layer_ids s = [])"

definition composed_or_bare :: "surface \<Rightarrow> bool" where
  "composed_or_bare s =
     (bare s \<or> (progress s = Finished \<and>
        layer_ids s = [''departments-fill'', ''departments-outline'', ''communes-outline'',
                       ''sections-fill'', ''sections-outline'']))"

section \<open>Properties\<close>

subsection \<open>What each operation leaves alone\<close>

lemma on_surface_fields:
  "visible (on_surface m f st) = visible st"
  "base (on_surface m f st) = base st"
  "containerRef (on_surface m f st) = containerRef st"
  "mapRef (on_surface m f st) = mapRef st"
  "popupRef (on_surface m f st) = popupRef st"
  "popups (on_surface m f st) = popups st"
  "cleanup (on_surface m f st) = cleanup st"
  "length (surfaces (on_surface m f st)) = length (surfaces st)"
  by (simp_all add: on_surface_def)

lemma on_popup_fields:
  "visible (on_popup p f st) = visible st"
  "base (on_popup p f st) = base st"
  "containerRef (on_popup p f st) = containerRef st"
  "mapRef (on_popup p f st) = mapRef st"
  "popupRef (on_popup p f st) = popupRef st"
  "cleanup (on_popup p f st) = cleanup st"
  "surfaces (on_popup p f st) = surfaces st"
  "length (popups (on_popup p f st)) = length (popups st)"
  by (simp_all add: on_popup_def)

lemma popup_remove_fields:
  "visible (popup_remove st) = visible st"
  "base (popup_remove st) = base st"
  "containerRef (popup_remove st) = containerRef st"
  "mapRef (popup_remove st) = mapRef st"
  "popupRef (popup_remove st) = popupRef st"
  "cleanup (popup_remove st) = cleanup st"
  "surfaces (popup_remove st) = surfaces st"
  "length (popups (popup_remove st)) = length (popups st)"
  by (simp_all add: popup_remove_def on_popup_fields split: option.splits)

lemma on_surface_nth:
  "m < length (surfaces st) \<Longrightarrow> surfaces (on_surface m f st) ! m = f (surfaces st ! m)"
  "i \<noteq> m \<Longrightarrow> surfaces (on_surface m f st) ! i = surfaces st ! i"
  by (simp_all add: on_surface_def)

lemma fold_push_visible: "visible (fold (push mp v) ids st) = visible st"
  by (induction ids arbitrary: st) (simp_all add: push_def on_surface_fields split: option.splits)

lemma rerun_visible: "visible (rerun st) = visible st"
  by (simp add: rerun_def useEffect_def run_cleanup_def Let_def on_surface_fields
      split: option.splits)

lemma toggle_visible:
  "visible (toggle k st) = AList.update k (\<not> get (visible st) k) (visible st)"
  by (simp add: toggle_def Let_def rerun_visible fold_push_visible)

lemma setBase_visible: "visible (setBase b st) = visible st"
  by (simp add: setBase_def rerun_visible)

lemma on_load_visible: "on_load m r1 r2 r3 st = Inr st' \<Longrightarrow> visible st' = visible st"
  by (auto simp: on_load_def on_surface_fields split: sum.splits)

lemma on_mousemove_visible: "on_mousemove m e st = Inr st' \<Longrightarrow> visible st' = visible st"
  by (auto simp: on_mousemove_def Let_def on_surface_fields on_popup_fields popup_remove_fields
      split: list.splits option.splits)

lemma mounted_visible:
  "visible mounted = [(departments, True), (communes, False), (sections, True)]"
  by (simp add: mounted_def useEffect_def initial_def Let_def)

subsection \<open>The keys of the visibility object\<close>

lemma step_keys:
  assumes "map fst (visible st) = [departments, communes, sections]"
  shows "map fst (visible (step st ev)) = [departments, communes, sections]"
proof (cases ev)
  case (Toggle k)
  have "k \<in> set (map fst (visible st))"
    using assms by (cases k) simp_all
  then show ?thesis
    using assms Toggle by (simp add: toggle_visible update_keys)
next
  case (SetBase b)
  then show ?thesis using assms by (simp add: setBase_visible)
next
  case (Load m)
  then show ?thesis using assms by (simp add: on_surface_fields)
next
  case (Fetched m r1 r2 r3)
  then show ?thesis using assms
    by (auto simp: Let_def on_surface_fields split: sum.splits dest!: on_load_visible)
next
  case (MouseMove m e)
  then show ?thesis using assms
    by (auto split: sum.splits dest!: on_mousemove_visible)
next
  case (MouseOut m)
  then show ?thesis using assms by (simp add: on_mouseout_def popup_remove_fields)
qed

lemma foldl_step_keys:
  "map fst (visible st) = [departments, communes, sections] \<Longrightarrow>
   map fst (visible (foldl step st evs)) = [departments, communes, sections]"
  by (induction evs arbitrary: st) (simp_all add: step_keys)

text \<open>
  C7. In the mounted component and after every sequence of events (toggles, basemap
  changes, load signals, fetch completions, pointer events), the keys of \<^verbatim>\<open>visible\<close>
  are departments, communes and sections, each exactly once: no entry is missing, none
  is duplicated, and the key type admits no other key.
\<close>

theorem visible_has_one_entry_per_layer:
  "map fst (visible (run evs)) = [departments, communes, sections]"
  unfolding run_def by (rule foldl_step_keys) (simp add: mounted_visible)

text \<open>
  C6. Toggling the same layer twice brings the stored boolean of that layer back to what
  it was, in every state.
\<close>

theorem toggle_twice_restores_flag:
  "get (visible (toggle k (toggle k st))) k = get (visible st) k"
  by (simp add: toggle_visible get_def update_conv')

text \<open>
  C10. The id list that \<^verbatim>\<open>apply\<close> (lines 75-77) computes for a layer key and the one
  that \<^verbatim>\<open>toggle\<close> (lines 110-115) computes are the same list, for each of the three
  keys: two ids for departments, one for communes, two for sections.
\<close>

theorem apply_ids_eq_toggle_ids:
  "apply_ids k = toggle_ids k
   \<and> toggle_ids departments = [''departments-fill'', ''departments-outline'']
   \<and> toggle_ids communes = [''communes-outline'']
   \<and> toggle_ids sections = [''sections-fill'', ''sections-outline'']"
  by (simp add: apply_ids_def toggle_ids_def)

text \<open>
  C1, evaluated on the code. The component is mounted, its map 0 has loaded and is
  composed; then the departments chip is clicked. The effect of line 104 depends on
  \<^verbatim>\<open>visible\<close>, so the click removes map 0 and creates map 1: the map of \<^verbatim>\<open>mapRef\<close>
  is not the same instance before and after the toggle, and the new one has no layer.
\<close>

theorem toggle_recreates_surface:
  "mapRef (run [Load 0, Fetched 0 (Inr (GeoJSON ''deps'')) (Inr (GeoJSON ''coms''))
                  (Inr (GeoJSON ''secs''))]) = Some 0
   \<and> mapRef (run [Load 0, Fetched 0 (Inr (GeoJSON ''deps'')) (Inr (GeoJSON ''coms''))
                    (Inr (GeoJSON ''secs'')), Toggle departments]) = Some 1
   \<and> removed (surfaces (run [Load 0, Fetched 0 (Inr (GeoJSON ''deps''))
                    (Inr (GeoJSON ''coms'')) (Inr (GeoJSON ''secs'')), Toggle departments]) ! 0)
   \<and> layer_ids (surfaces (run [Load 0, Fetched 0 (Inr (GeoJSON ''deps''))
                    (Inr (GeoJSON ''coms'')) (Inr (GeoJSON ''secs'')), Toggle departments]) ! 1) = []"
  by code_simp

subsection \<open>The calls of a composition\<close>

lemma fold_issue: "fold (\<lambda>i. issue (g i)) ids s = s\<lparr>calls := calls s @ map g ids\<rparr>"
  by (induction ids arbitrary: s) (simp_all add: issue_def)

lemma apply_vis_eq:
  "apply_vis k b s =
   s\<lparr>calls := calls s @ map (\<lambda>i. SetLayoutProperty i ''visibility'' (if b then ''visible'' else ''none''))
                             (apply_ids k)\<rparr>"
  by (simp add: apply_vis_def setLayoutProperty_def fold_issue)

lemma fold_apply_vis:
  "fold (\<lambda>k. apply_vis k (h k)) ks s =
   s\<lparr>calls := calls s @ concat (map (\<lambda>k. map (\<lambda>i. SetLayoutProperty i ''visibility''
                                           (if h k then ''visible'' else ''none'')) (apply_ids k)) ks)\<rparr>"
  by (induction ks arbitrary: s) (simp_all add: apply_vis_eq)

lemma layer_of_visibility:
  "concat (map layer_of (concat (map (\<lambda>k. map (\<lambda>i. SetLayoutProperty i p (w k)) (f k)) ks))) = []"
  by (induction ks) (simp_all add: comp_def)

lemma compose_calls:
  "calls (compose deps coms secs s) =
   calls s @ [AddSource ''departments'' deps, AddSource ''communes'' coms, AddSource ''sections'' secs,
              AddLayer ''departments-fill'' fill ''departments'',
              AddLayer ''departments-outline'' line ''departments'',
              AddLayer ''communes-outline'' line ''communes'',
              AddLayer ''sections-fill'' fill ''sections'',
              AddLayer ''sections-outline'' line ''sections'']
     @ concat (map (\<lambda>k. map (\<lambda>i. SetLayoutProperty i ''visibility''
                                   (if get (closure_visible s) k then ''visible'' else ''none''))
                              (apply_ids k))
                   (map fst (closure_visible s)))
     @ [On ''mousemove'', On ''mouseout'']"
  by (simp add: compose_def Let_def fold_apply_vis addSource_def addLayer_def on_def issue_def)

lemma compose_progress: "progress (compose deps coms secs s) = progress s"
  by (simp add: compose_def Let_def fold_apply_vis addSource_def addLayer_def on_def issue_def)

lemma compose_layer_ids:
  "layer_ids (compose deps coms secs s) =
   layer_ids s @ [''departments-fill'', ''departments-outline'', ''communes-outline'',
                  ''sections-fill'', ''sections-outline'']"
  by (simp add: layer_ids_def compose_calls layer_of_visibility)

subsection \<open>Properties kept by every operation that registers no layer\<close>

lemma list_all_list_update:
  assumes "list_all P xs" and "m < length xs \<Longrightarrow> P (f (xs ! m))"
  shows "list_all P (xs[m := f (xs ! m)])"
  unfolding list_all_length
proof (intro allI impI)
  fix n assume n: "n < length (xs[m := f (xs ! m)])"
  show "P (xs[m := f (xs ! m)] ! n)"
  proof (cases "n = m")
    case True
    then show ?thesis using n assms(2) by simp
  next
    case False
    then show ?thesis using n assms(1) by (simp add: list_all_length)
  qed
qed

lemma on_surface_list_all:
  assumes "list_all P (surfaces st)" and "m < length (surfaces st) \<Longrightarrow> P (f (surfaces st ! m))"
  shows "list_all P (surfaces (on_surface m f st))"
  using assms by (simp add: on_surface_def list_all_list_update)

lemma on_surface_issue_list_all:
  assumes "\<And>c s. layer_of c = [] \<Longrightarrow> P s \<Longrightarrow> P (issue c s)"
      and "list_all P (surfaces st)" and "layer_of c = []"
  shows "list_all P (surfaces (on_surface m (issue c) st))"
proof (rule on_surface_list_all [where P = P, OF assms(2)])
  assume "m < length (surfaces st)"
  then have "P (surfaces st ! m)"
    using assms(2) by (simp add: list_all_length)
  then show "P (issue c (surfaces st ! m))"
    using assms(1,3) by simp
qed

lemma layer_ids_issue: "layer_ids (issue c s) = layer_ids s @ layer_of c"
  by (simp add: layer_ids_def issue_def)

lemma progress_issue: "progress (issue c s) = progress s"
  by (simp add: issue_def)

lemma bare_issue: "layer_of c = [] \<Longrightarrow> bare (issue c s) = bare s"
  by (simp add: bare_def layer_ids_issue)

lemma composed_or_bare_issue: "layer_of c = [] \<Longrightarrow> composed_or_bare (issue c s) = composed_or_bare s"
  by (simp add: composed_or_bare_def bare_issue layer_ids_issue progress_issue)

lemma bare_new_Map: "bare (on ''load'' (addControl c2 (addControl c1 (new_Map b v))))"
  by (simp add: bare_def layer_ids_def on_def addControl_def issue_def new_Map_def)

text \<open>Operations that issue only calls registering no layer keep a property of that kind.\<close>

lemma fold_push_list_all:
  assumes "\<And>c s. layer_of c = [] \<Longrightarrow> P s \<Longrightarrow> P (issue c s)" and "list_all P (surfaces st)"
  shows "list_all P (surfaces (fold (push mp v) ids st))"
  using assms(2)
proof (induction ids arbitrary: st)
  case Nil
  then show ?case by simp
next
  case (Cons i ids)
  have "list_all P (surfaces (on_surface m (issue (SetLayoutProperty i ''visibility'' v)) st))" for m
    by (rule on_surface_issue_list_all [where P = P]) (simp_all add: assms(1) Cons.prems)
  then have "list_all P (surfaces (push mp v i st))"
    using Cons.prems by (simp add: push_def setLayoutProperty_def split: option.splits)
  then show ?case using Cons.IH by simp
qed

lemma rerun_list_all:
  assumes "\<And>c s. layer_of c = [] \<Longrightarrow> P s \<Longrightarrow> P (issue c s)"
      and "\<And>b v. P (on ''load'' (addControl ''ScaleControl'' (addControl ''NavigationControl'' (new_Map b v))))"
      and "list_all P (surfaces st)"
  shows "list_all P (surfaces (rerun st))"
proof -
  have "list_all P (surfaces (on_surface m (issue Remove) st))" for m
    by (rule on_surface_issue_list_all [where P = P]) (simp_all add: assms(1,3))
  then have "list_all P (surfaces (run_cleanup st))"
    using assms(3) by (simp add: run_cleanup_def remove_def split: option.splits)
  then show ?thesis
    using assms(2) by (simp add: rerun_def useEffect_def Let_def)
qed

lemma on_load_Inr:
  assumes "on_load m r1 r2 r3 st = Inr st'"
  shows "\<exists>d c x. r1 = Inr d \<and> r2 = Inr c \<and> r3 = Inr x
           \<and> st' = (on_surface m (compose d c x) st)
                      \<lparr>popupRef := Some (length (popups st)), popups := popups st @ [new_Popup]\<rparr>"
  using assms by (auto simp: on_load_def split: sum.splits)

lemma set_progress_progress: "progress (set_progress p s) = p"
  by (simp add: set_progress_def)

lemma set_progress_layer_ids: "layer_ids (set_progress p s) = layer_ids s"
  by (simp add: set_progress_def layer_ids_def)

lemma toggle_surfaces_list_all:
  assumes "\<And>c s. layer_of c = [] \<Longrightarrow> P s \<Longrightarrow> P (issue c s)"
      and "\<And>b v. P (on ''load'' (addControl ''ScaleControl'' (addControl ''NavigationControl'' (new_Map b v))))"
      and "list_all P (surfaces st)"
  shows "list_all P (surfaces (toggle k st))"
proof -
  have "list_all P (surfaces (fold (push mp v) ids st))" for mp v ids
    by (rule fold_push_list_all [where P = P]) (simp_all add: assms(1,3))
  then show ?thesis
    unfolding toggle_def Let_def
    by (intro rerun_list_all [where P = P]) (simp_all add: assms(1,2))
qed

lemma setBase_surfaces_list_all:
  assumes "\<And>c s. layer_of c = [] \<Longrightarrow> P s \<Longrightarrow> P (issue c s)"
      and "\<And>b v. P (on ''load'' (addControl ''ScaleControl'' (addControl ''NavigationControl'' (new_Map b v))))"
      and "list_all P (surfaces st)"
  shows "list_all P (surfaces (setBase b st))"
proof -
  have "list_all P (surfaces (rerun (st\<lparr>base := b\<rparr>)))"
    by (rule rerun_list_all [where P = P]) (simp_all add: assms)
  then show ?thesis
    using assms(3) by (simp add: setBase_def)
qed

lemma on_mousemove_surfaces_list_all:
  assumes "\<And>c s. layer_of c = [] \<Longrightarrow> P s \<Longrightarrow> P (issue c s)"
      and "list_all P (surfaces st)" and "on_mousemove m e st = Inr st'"
  shows "list_all P (surfaces st')"
proof -
  have "list_all P (surfaces (on_surface m (setCursor c) st))" for c
    unfolding setCursor_def
    by (rule on_surface_issue_list_all [where P = P]) (simp_all add: assms(1,2))
  then show ?thesis
    using assms(3)
    by (auto simp: on_mousemove_def Let_def on_popup_fields popup_remove_fields
        split: list.splits option.splits)
qed

lemma composed_or_bare_new_Map:
  "composed_or_bare (on ''load'' (addControl c2 (addControl c1 (new_Map b v))))"
  by (simp add: composed_or_bare_def bare_new_Map)

lemma step_composed_or_bare:
  assumes "list_all composed_or_bare (surfaces st)"
  shows "list_all composed_or_bare (surfaces (step st ev))"
proof (cases ev)
  case (Toggle k)
  then show ?thesis
    using assms by (simp add: toggle_surfaces_list_all composed_or_bare_issue composed_or_bare_new_Map)
next
  case (SetBase b)
  then show ?thesis
    using assms by (simp add: setBase_surfaces_list_all composed_or_bare_issue composed_or_bare_new_Map)
next
  case (Load m)
  have "composed_or_bare (set_progress Fetching (surfaces st ! m))"
    if "m < length (surfaces st)" "progress (surfaces st ! m) = Creating"
  proof -
    have "composed_or_bare (surfaces st ! m)"
      using assms that(1) by (simp add: list_all_length)
    then show ?thesis
      using that(2) by (simp add: composed_or_bare_def bare_def set_progress_layer_ids)
  qed
  then show ?thesis
    using assms Load by (auto intro!: on_surface_list_all)
next
  case (Fetched m r1 r2 r3)
  show ?thesis
  proof (cases "m < length (surfaces st) \<and> progress (surfaces st ! m) = Fetching")
    case False
    then show ?thesis using assms Fetched by auto
  next
    case True
    then have "composed_or_bare (surfaces st ! m)"
      using assms by (simp add: list_all_length)
    then have b: "bare (surfaces st ! m)"
      using True by (simp add: composed_or_bare_def)
    let ?st1 = "on_surface m (set_progress Finished) st"
    have 1: "list_all composed_or_bare (surfaces ?st1)"
      using assms b
      by (auto intro!: on_surface_list_all simp: composed_or_bare_def bare_def set_progress_layer_ids)
    have s1: "surfaces ?st1 ! m = set_progress Finished (surfaces st ! m)"
      using True by (simp add: on_surface_nth)
    have 2: "list_all composed_or_bare (surfaces st2)" if h: "on_load m r1 r2 r3 ?st1 = Inr st2" for st2
    proof -
      obtain d c x where st2: "st2 = (on_surface m (compose d c x) ?st1)
          \<lparr>popupRef := Some (length (popups ?st1)), popups := popups ?st1 @ [new_Popup]\<rparr>"
        using on_load_Inr [OF h] by blast
      have "composed_or_bare (compose d c x (surfaces ?st1 ! m))"
        using b by (simp add: s1 composed_or_bare_def bare_def compose_layer_ids compose_progress
            set_progress_layer_ids set_progress_progress)
      then show ?thesis
        unfolding st2 using 1 by (auto intro!: on_surface_list_all)
    qed
    show ?thesis
      using True Fetched 1 2 by (auto simp: Let_def split: sum.splits)
  qed
next
  case (MouseMove m e)
  then show ?thesis
    using assms
    by (auto split: sum.splits
        intro: on_mousemove_surfaces_list_all [where P = composed_or_bare] simp: composed_or_bare_issue)
next
  case (MouseOut m)
  then show ?thesis using assms by (simp add: on_mouseout_def popup_remove_fields)
qed

subsection \<open>Runs and the load handler\<close>

lemma run_snoc: "run (evs @ [ev]) = step (run evs) ev"
  by (simp add: run_def)

lemma mounted_surfaces:
  "surfaces mounted = [on ''load'' (addControl ''ScaleControl'' (addControl ''NavigationControl''
      (new_Map terrain [(departments, True), (communes, False), (sections, True)])))]"
  by (simp add: mounted_def useEffect_def initial_def Let_def)

lemma run_composed_or_bare: "list_all composed_or_bare (surfaces (run evs))"
proof (induction evs rule: rev_induct)
  case Nil
  show ?case by (simp add: run_def mounted_surfaces composed_or_bare_new_Map)
next
  case (snoc ev evs)
  then show ?case by (simp add: run_snoc step_composed_or_bare)
qed

lemma step_Fetched_ok:
  assumes "m < length (surfaces st)" and "progress (surfaces st ! m) = Fetching"
  shows "step st (Fetched m (Inr deps) (Inr coms) (Inr secs)) =
         (on_surface m (compose deps coms secs) (on_surface m (set_progress Finished) st))
           \<lparr>popupRef := Some (length (popups st)), popups := popups st @ [new_Popup]\<rparr>"
  using assms by (simp add: Let_def on_load_def on_surface_fields)

lemma on_surface_twice: "on_surface m f (on_surface m g st) = on_surface m (f \<circ> g) st"
  by (cases "m < length (surfaces st)") (simp_all add: on_surface_def list_update_beyond)

text \<open>
  C3. In every run of the component, when the three fetches of a suspended load handler
  succeed, the layers registered on its map are exactly departments-fill,
  departments-outline, communes-outline, sections-fill, sections-outline, in this order.
  The handler awaits the fetches one after the other and registers only after the third,
  so no order of completion and no interleaving with other events changes the sequence.
\<close>

theorem registration_follows_catalog_order:
  assumes "m < length (surfaces (run evs))"
      and "progress (surfaces (run evs) ! m) = Fetching"
  shows "layer_ids (surfaces (run (evs @ [Fetched m (Inr deps) (Inr coms) (Inr secs)])) ! m) =
         [''departments-fill'', ''departments-outline'', ''communes-outline'',
          ''sections-fill'', ''sections-outline'']"
proof -
  have "composed_or_bare (surfaces (run evs) ! m)"
    using run_composed_or_bare [of evs] assms(1) by (simp add: list_all_length)
  then have "layer_ids (surfaces (run evs) ! m) = []"
    using assms(2) by (simp add: composed_or_bare_def bare_def)
  then show ?thesis
    using assms
    by (simp add: run_snoc step_Fetched_ok on_surface_twice on_surface_nth compose_layer_ids
        set_progress_layer_ids del: step.simps)
qed

theorem registration_follows_catalog_order_witness:
  "0 < length (surfaces (run [Load 0])) \<and> progress (surfaces (run [Load 0]) ! 0) = Fetching
   \<and> layer_ids (surfaces (run ([Load 0] @ [Fetched 0 (Inr (GeoJSON ''deps''))
         (Inr (GeoJSON ''coms'')) (Inr (GeoJSON ''secs''))])) ! 0) =
         [''departments-fill'', ''departments-outline'', ''communes-outline'',
          ''sections-fill'', ''sections-outline'']"
proof -
  have 1: "0 < length (surfaces (run [Load 0]))" by code_simp
  have 2: "progress (surfaces (run [Load 0]) ! 0) = Fetching" by code_simp
  show ?thesis
    using 1 2 registration_follows_catalog_order [OF 1 2] by simp
qed

text \<open>
  C2 as stated fails: when only the communes fetch fails, nothing at all is registered on
  the map, neither the sources and layers of departments and sections nor any visibility.
\<close>

theorem one_failed_fetch_registers_nothing:
  "layer_ids (surfaces (run [Load 0, Fetched 0 (Inr (GeoJSON ''deps'')) (Inl FetchFailed)
       (Inr (GeoJSON ''secs''))]) ! 0) = []
   \<and> source_ids (surfaces (run [Load 0, Fetched 0 (Inr (GeoJSON ''deps'')) (Inl FetchFailed)
       (Inr (GeoJSON ''secs''))]) ! 0) = []
   \<and> layout_calls (surfaces (run [Load 0, Fetched 0 (Inr (GeoJSON ''deps'')) (Inl FetchFailed)
       (Inr (GeoJSON ''secs''))]) ! 0) = []"
  by code_simp

lemma on_load_fails:
  "isl r1 \<or> isl r2 \<or> isl r3 \<Longrightarrow> \<exists>e. on_load m r1 r2 r3 st = Inl e"
  by (cases r1; cases r2; cases r3) (simp_all add: on_load_def)

lemma calls_set_progress: "calls (set_progress p s) = calls s"
  by (simp add: set_progress_def)

lemma map_calls_on_surface:
  "(\<And>s. calls (f s) = calls s) \<Longrightarrow> map calls (surfaces (on_surface m f st)) = map calls (surfaces st)"
  by (cases "m < length (surfaces st)") (simp_all add: on_surface_def map_update list_update_same_conv list_update_beyond)

text \<open>
  C2, amended. When at least one of the three fetches fails, the load handler is rejected
  with an error before it registers anything: the completion of the fetches issues no call
  to any map (no source, no layer, no visibility, no hover listener) and leaves the popup
  ref as it was.
\<close>

theorem failed_fetch_rejects_the_handler:
  assumes "isl r1 \<or> isl r2 \<or> isl r3"
  shows "(\<exists>e. on_load m r1 r2 r3 st = Inl e)
         \<and> map calls (surfaces (step st (Fetched m r1 r2 r3))) = map calls (surfaces st)
         \<and> popupRef (step st (Fetched m r1 r2 r3)) = popupRef st
         \<and> popups (step st (Fetched m r1 r2 r3)) = popups st"
proof -
  have "\<exists>e. on_load m r1 r2 r3 st' = Inl e" for st'
    using assms by (rule on_load_fails)
  then obtain e where e: "on_load m r1 r2 r3 (on_surface m (set_progress Finished) st) = Inl e"
    by blast
  have "step st (Fetched m r1 r2 r3) = st
        \<or> step st (Fetched m r1 r2 r3) = on_surface m (set_progress Finished) st"
    using e by (simp add: Let_def)
  then show ?thesis
    using on_load_fails [OF assms]
    by (auto simp: on_surface_fields map_calls_on_surface calls_set_progress)
qed

theorem failed_fetch_rejects_the_handler_witness:
  "(isl (Inr (GeoJSON ''deps'') :: fetched) \<or> isl (Inl FetchFailed :: fetched) \<or> isl (Inr (GeoJSON ''secs'') :: fetched))
   \<and> (\<exists>e. on_load 0 (Inr (GeoJSON ''deps'')) (Inl FetchFailed) (Inr (GeoJSON ''secs'')) (run [Load 0]) = Inl e)
   \<and> map calls (surfaces (step (run [Load 0]) (Fetched 0 (Inr (GeoJSON ''deps'')) (Inl FetchFailed) (Inr (GeoJSON ''secs'')))))
       = map calls (surfaces (run [Load 0]))
   \<and> popupRef (step (run [Load 0]) (Fetched 0 (Inr (GeoJSON ''deps'')) (Inl FetchFailed) (Inr (GeoJSON ''secs'')))) = popupRef (run [Load 0])
   \<and> popups (step (run [Load 0]) (Fetched 0 (Inr (GeoJSON ''deps'')) (Inl FetchFailed) (Inr (GeoJSON ''secs'')))) = popups (run [Load 0])"
proof -
  have h: "isl (Inr (GeoJSON ''deps'') :: fetched) \<or> isl (Inl FetchFailed :: fetched) \<or> isl (Inr (GeoJSON ''secs'') :: fetched)"
    by simp
  show ?thesis
    using h failed_fetch_rejects_the_handler [OF h, of 0 "run [Load 0]"] by blast
qed

text \<open>
  C4 as stated fails: the basemap is changed while the load handler of map 0 awaits its
  fetches; map 0 is removed, and when the fetches complete the handler still registers its
  five layers on the removed map 0.
\<close>

theorem stale_callback_registers_on_destroyed_surface:
  "removed (surfaces (run [Load 0, SetBase dark]) ! 0)
   \<and> progress (surfaces (run [Load 0, SetBase dark]) ! 0) = Fetching
   \<and> layer_ids (surfaces (run [Load 0, SetBase dark]) ! 0) = []
   \<and> layer_ids (surfaces (run [Load 0, SetBase dark, Fetched 0 (Inr (GeoJSON ''deps''))
        (Inr (GeoJSON ''coms'')) (Inr (GeoJSON ''secs''))]) ! 0) =
       [''departments-fill'', ''departments-outline'', ''communes-outline'',
        ''sections-fill'', ''sections-outline'']"
  by code_simp

text \<open>
  C4, amended. When the fetches of a load handler complete after its map was removed, the
  handler touches no other map (in particular not the replacement) and does not change
  \<^verbatim>\<open>mapRef\<close>; on its own, removed map it issues the registrations of a normal
  composition. What the engine does with calls on a removed map is not modelled.
\<close>

theorem stale_callback_reaches_only_its_own_surface:
  assumes "m < length (surfaces st)"
      and "progress (surfaces st ! m) = Fetching"
      and "removed (surfaces st ! m)"
      and "i \<noteq> m"
  shows "surfaces (step st (Fetched m (Inr deps) (Inr coms) (Inr secs))) ! i = surfaces st ! i
         \<and> length (surfaces (step st (Fetched m (Inr deps) (Inr coms) (Inr secs)))) = length (surfaces st)
         \<and> mapRef (step st (Fetched m (Inr deps) (Inr coms) (Inr secs))) = mapRef st
         \<and> layer_ids (surfaces (step st (Fetched m (Inr deps) (Inr coms) (Inr secs))) ! m) =
             layer_ids (surfaces st ! m) @
             [''departments-fill'', ''departments-outline'', ''communes-outline'',
              ''sections-fill'', ''sections-outline'']"
  using assms(1,2,4)
  by (simp add: step_Fetched_ok on_surface_twice on_surface_nth on_surface_fields compose_layer_ids
      set_progress_layer_ids del: step.simps)

theorem stale_callback_reaches_only_its_own_surface_witness:
  "0 < length (surfaces (run [Load 0, SetBase dark]))
   \<and> progress (surfaces (run [Load 0, SetBase dark]) ! 0) = Fetching
   \<and> removed (surfaces (run [Load 0, SetBase dark]) ! 0)
   \<and> (1::nat) \<noteq> 0
   \<and> surfaces (step (run [Load 0, SetBase dark]) (Fetched 0 (Inr (GeoJSON ''deps''))
         (Inr (GeoJSON ''coms'')) (Inr (GeoJSON ''secs'')))) ! 1
       = surfaces (run [Load 0, SetBase dark]) ! 1
   \<and> mapRef (step (run [Load 0, SetBase dark]) (Fetched 0 (Inr (GeoJSON ''deps''))
         (Inr (GeoJSON ''coms'')) (Inr (GeoJSON ''secs'')))) = mapRef (run [Load 0, SetBase dark])"
proof -
  have 1: "0 < length (surfaces (run [Load 0, SetBase dark]))" by code_simp
  have 2: "progress (surfaces (run [Load 0, SetBase dark]) ! 0) = Fetching" by code_simp
  have 3: "removed (surfaces (run [Load 0, SetBase dark]) ! 0)" by code_simp
  have 4: "(1::nat) \<noteq> 0" by simp
  show ?thesis
    using 1 2 3 4 stale_callback_reaches_only_its_own_surface [OF 1 2 3 4] by blast
qed

subsection \<open>The hover handler\<close>



lemma on_mousemove_feature:
  assumes "queryRenderedFeatures (surfaces st ! m) e hoverTargets = f # rest"
      and "popupRef st = Some p"
  shows "on_mousemove m e st =
         Inr (on_popup p (\<lambda>q. q\<lparr>at := Some (lngLat e), html := popup_html (label f),
                                  onMap := Some m\<rparr>)
                (on_surface m (setCursor ''pointer'') st))"
  using assms by (simp add: on_mousemove_def Let_def on_surface_fields)





lemma query_composed:
  assumes "layer_ids s = [''departments-fill'', ''departments-outline'', ''communes-outline'',
                          ''sections-fill'', ''sections-outline'']"
  shows "queryRenderedFeatures s e hoverTargets =
          (if shown s ''sections-fill''
           then map (\<lambda>n. \<lparr>layer_id = ''sections-fill'', name = n\<rparr>) (under e ''sections-fill'') else [])
          @ (if shown s ''departments-fill''
             then map (\<lambda>n. \<lparr>layer_id = ''departments-fill'', name = n\<rparr>) (under e ''departments-fill'')
             else [])"
  by (simp add: queryRenderedFeatures_def hoverTargets_def assms)

lemma query_bare: "bare s \<Longrightarrow> queryRenderedFeatures s e layers = []"
  by (simp add: queryRenderedFeatures_def bare_def)

lemma query_sections_first:
  assumes "layer_ids s = [''departments-fill'', ''departments-outline'', ''communes-outline'',
                          ''sections-fill'', ''sections-outline'']"
      and "f \<in> set (queryRenderedFeatures s e hoverTargets)"
      and "layer_id f = ''sections-fill''"
  shows "\<exists>f' rest. queryRenderedFeatures s e hoverTargets = f' # rest \<and> layer_id f' = ''sections-fill''"
proof (cases "shown s ''sections-fill''")
  case False
  then have "layer_id f = ''departments-fill''"
    using assms(2) by (auto simp: query_composed [OF assms(1)] split: if_splits)
  then show ?thesis using assms(3) by simp
next
  case True
  show ?thesis
  proof (cases "under e ''sections-fill''")
    case Nil
    then have "layer_id f = ''departments-fill''"
      using assms(2) by (auto simp: query_composed [OF assms(1)] split: if_splits)
    then show ?thesis using assms(3) by simp
  next
    case (Cons n ns)
    then show ?thesis
      using True by (simp add: query_composed [OF assms(1)])
  qed
qed




subsection \<open>The popup exists once a map has layers\<close>

lemma fold_push_popupRef: "popupRef (fold (push mp v) ids st) = popupRef st"
  by (induction ids arbitrary: st) (simp_all add: push_def on_surface_fields split: option.splits)

lemma fold_push_popups: "popups (fold (push mp v) ids st) = popups st"
  by (induction ids arbitrary: st) (simp_all add: push_def on_surface_fields split: option.splits)

lemma rerun_popupRef: "popupRef (rerun st) = popupRef st"
  by (simp add: rerun_def useEffect_def run_cleanup_def Let_def on_surface_fields
      split: option.splits)

lemma rerun_popups: "popups (rerun st) = popups st"
  by (simp add: rerun_def useEffect_def run_cleanup_def Let_def on_surface_fields
      split: option.splits)

lemma toggle_popupRef: "popupRef (toggle k st) = popupRef st"
  by (simp add: toggle_def Let_def rerun_popupRef fold_push_popupRef)

lemma toggle_popups: "popups (toggle k st) = popups st"
  by (simp add: toggle_def Let_def rerun_popups fold_push_popups)

lemma setBase_popupRef: "popupRef (setBase b st) = popupRef st"
  by (simp add: setBase_def rerun_popupRef)

lemma setBase_popups: "popups (setBase b st) = popups st"
  by (simp add: setBase_def rerun_popups)

lemma on_mousemove_popupRef:
  "on_mousemove m e st = Inr st' \<Longrightarrow> popupRef st' = popupRef st"
  by (auto simp: on_mousemove_def Let_def on_surface_fields on_popup_fields popup_remove_fields
      split: list.splits option.splits)

lemma on_mousemove_length_popups:
  "on_mousemove m e st = Inr st' \<Longrightarrow> length (popups st') = length (popups st)"
  by (auto simp: on_mousemove_def Let_def on_surface_fields on_popup_fields popup_remove_fields
      split: list.splits option.splits)

lemma bare_set_progress: "bare (set_progress p s) = bare s"
  by (simp add: bare_def set_progress_layer_ids)

lemma set_progress_list_all_bare:
  assumes "list_all bare (surfaces st)"
  shows "list_all bare (surfaces (on_surface m (set_progress p) st))"
proof (rule on_surface_list_all [where P = bare, OF assms])
  assume "m < length (surfaces st)"
  then show "bare (set_progress p (surfaces st ! m))"
    using assms by (simp add: list_all_length bare_set_progress)
qed

lemma step_popup_bare:
  assumes "popupRef st = None \<longrightarrow> list_all bare (surfaces st)"
  shows "popupRef (step st ev) = None \<longrightarrow> list_all bare (surfaces (step st ev))"
proof (cases ev)
  case (Toggle k)
  then show ?thesis
    using assms
    by (auto simp: toggle_popupRef bare_issue bare_new_Map
        intro!: toggle_surfaces_list_all [where P = bare])
next
  case (SetBase b)
  then show ?thesis
    using assms
    by (auto simp: setBase_popupRef bare_issue bare_new_Map
        intro!: setBase_surfaces_list_all [where P = bare])
next
  case (Load m)
  then show ?thesis
    using assms by (auto simp: on_surface_fields intro!: set_progress_list_all_bare)
next
  case (Fetched m r1 r2 r3)
  let ?st1 = "on_surface m (set_progress Finished) st"
  have 1: "popupRef ?st1 = None \<longrightarrow> list_all bare (surfaces ?st1)"
    using assms by (auto simp: on_surface_fields intro!: set_progress_list_all_bare)
  have 2: "popupRef st2 \<noteq> None" if h: "on_load m r1 r2 r3 ?st1 = Inr st2" for st2
    using on_load_Inr [OF h] by auto
  show ?thesis
    using Fetched assms 1 2 by (auto simp: Let_def split: sum.splits)
next
  case (MouseMove m e)
  have "list_all bare (surfaces st')"
    if h: "on_mousemove m e st = Inr st'" and n: "popupRef st' = None" for st'
  proof (rule on_mousemove_surfaces_list_all [where P = bare, OF _ _ h])
    show "list_all bare (surfaces st)"
      using assms on_mousemove_popupRef [OF h] n by simp
  qed (simp add: bare_issue)
  then show ?thesis
    using MouseMove assms by (auto split: sum.splits)
next
  case (MouseOut m)
  then show ?thesis
    using assms by (auto simp: on_mouseout_def popup_remove_fields)
qed

lemma run_popup_bare: "popupRef (run evs) = None \<longrightarrow> list_all bare (surfaces (run evs))"
proof (induction evs rule: rev_induct)
  case Nil
  show ?case by (simp add: run_def mounted_surfaces bare_new_Map)
next
  case (snoc ev evs)
  then show ?case
    unfolding run_snoc by (rule step_popup_bare)
qed

text \<open>The ref never points outside the popups allocated so far.\<close>

lemma step_popupRef_valid:
  assumes "popupRef st = Some q \<longrightarrow> q < length (popups st)"
  shows "popupRef (step st ev) = Some q \<longrightarrow> q < length (popups (step st ev))"
proof (cases ev)
  case (Toggle k)
  then show ?thesis using assms by (simp add: toggle_popupRef toggle_popups)
next
  case (SetBase b)
  then show ?thesis using assms by (simp add: setBase_popupRef setBase_popups)
next
  case (Load m)
  then show ?thesis using assms by (simp add: on_surface_fields)
next
  case (Fetched m r1 r2 r3)
  let ?st1 = "on_surface m (set_progress Finished) st"
  have "popupRef st2 = Some q \<longrightarrow> q < length (popups st2)"
    if h: "on_load m r1 r2 r3 ?st1 = Inr st2" for st2
    using on_load_Inr [OF h] by auto
  then show ?thesis
    using Fetched assms by (auto simp: Let_def on_surface_fields split: sum.splits)
next
  case (MouseMove m e)
  then show ?thesis
    using assms
    by (auto split: sum.splits dest: on_mousemove_popupRef on_mousemove_length_popups)
next
  case (MouseOut m)
  then show ?thesis
    using assms by (simp add: on_mouseout_def popup_remove_fields)
qed

lemma run_popupRef_valid: "popupRef (run evs) = Some q \<longrightarrow> q < length (popups (run evs))"
proof (induction evs rule: rev_induct)
  case Nil
  show ?case by (simp add: run_def mounted_def useEffect_def initial_def Let_def)
next
  case (snoc ev evs)
  then show ?case
    unfolding run_snoc by (rule step_popupRef_valid)
qed

text \<open>
  C5. In every run of the component, when the feature query of a pointer move on a map
  returns a feature of sections-fill (whether or not it also returns features of
  departments-fill), the first feature of the result is a sections-fill feature, and the
  handler shows the popup that the ref holds for that feature: its label, at the pointer's
  position, on that map. The sections layers are registered after the departments layers,
  so they are on top, and the engine reports the topmost feature first.
\<close>

theorem hover_prefers_sections:
  assumes "m < length (surfaces (run evs))"
      and "f \<in> set (queryRenderedFeatures (surfaces (run evs) ! m) e hoverTargets)"
      and "layer_id f = ''sections-fill''"
  shows "\<exists>f' rest q st'.
           queryRenderedFeatures (surfaces (run evs) ! m) e hoverTargets = f' # rest
           \<and> layer_id f' = ''sections-fill''
           \<and> on_mousemove m e (run evs) = Inr st'
           \<and> popupRef st' = Some q \<and> q < length (popups st')
           \<and> html (popups st' ! q) = popup_html (label f')
           \<and> at (popups st' ! q) = Some (lngLat e)
           \<and> onMap (popups st' ! q) = Some m"
proof -
  let ?s = "surfaces (run evs) ! m"
  have nb: "\<not> bare ?s"
    using assms(2) query_bare [of ?s e hoverTargets] by auto
  have "composed_or_bare ?s"
    using run_composed_or_bare [of evs] assms(1) by (simp add: list_all_length)
  then have ids: "layer_ids ?s = [''departments-fill'', ''departments-outline'',
      ''communes-outline'', ''sections-fill'', ''sections-outline'']"
    using nb by (simp add: composed_or_bare_def)
  obtain f' rest where q: "queryRenderedFeatures ?s e hoverTargets = f' # rest"
    and l: "layer_id f' = ''sections-fill''"
    using query_sections_first [OF ids assms(2,3)] by blast
  have "\<not> list_all bare (surfaces (run evs))"
    using nb assms(1) by (auto simp: list_all_length)
  then obtain p where p: "popupRef (run evs) = Some p"
    using run_popup_bare [of evs] by auto
  then have v: "p < length (popups (run evs))"
    using run_popupRef_valid [of evs p] by simp
  show ?thesis
    using q l v
    by (simp add: on_mousemove_feature [OF q p] on_popup_def on_surface_fields p)
qed

theorem hover_prefers_sections_witness:
  "0 < length (surfaces (run [Load 0, Fetched 0 (Inr (GeoJSON ''deps'')) (Inr (GeoJSON ''coms''))
        (Inr (GeoJSON ''secs''))]))
   \<and> \<lparr>layer_id = ''sections-fill'', name = Some ''Bellevue''\<rparr>
       \<in> set (queryRenderedFeatures
                (surfaces (run [Load 0, Fetched 0 (Inr (GeoJSON ''deps'')) (Inr (GeoJSON ''coms''))
                    (Inr (GeoJSON ''secs''))]) ! 0)
                \<lparr>lngLat = (-72, 18),
                   under = (\<lambda>i. if i = ''sections-fill'' then [Some ''Bellevue'']
                                 else if i = ''departments-fill'' then [Some ''Ouest''] else [])\<rparr>
                hoverTargets)
   \<and> layer_id \<lparr>layer_id = ''sections-fill'', name = Some ''Bellevue''\<rparr> = ''sections-fill''
   \<and> (\<exists>f' rest q st'.
         queryRenderedFeatures
           (surfaces (run [Load 0, Fetched 0 (Inr (GeoJSON ''deps'')) (Inr (GeoJSON ''coms''))
               (Inr (GeoJSON ''secs''))]) ! 0)
           \<lparr>lngLat = (-72, 18),
              under = (\<lambda>i. if i = ''sections-fill'' then [Some ''Bellevue'']
                            else if i = ''departments-fill'' then [Some ''Ouest''] else [])\<rparr>
           hoverTargets = f' # rest
         \<and> layer_id f' = ''sections-fill''
         \<and> on_mousemove 0
              \<lparr>lngLat = (-72, 18),
                 under = (\<lambda>i. if i = ''sections-fill'' then [Some ''Bellevue'']
                               else if i = ''departments-fill'' then [Some ''Ouest''] else [])\<rparr>
              (run [Load 0, Fetched 0 (Inr (GeoJSON ''deps'')) (Inr (GeoJSON ''coms''))
                  (Inr (GeoJSON ''secs''))]) = Inr st'
         \<and> popupRef st' = Some q \<and> q < length (popups st')
         \<and> html (popups st' ! q) = popup_html (label f')
         \<and> at (popups st' ! q) = Some (-72, 18)
         \<and> onMap (popups st' ! q) = Some 0)"
proof -
  let ?evs = "[Load 0, Fetched 0 (Inr (GeoJSON ''deps'')) (Inr (GeoJSON ''coms''))
                 (Inr (GeoJSON ''secs''))]"
  let ?e = "\<lparr>lngLat = (-72, 18),
             under = (\<lambda>i. if i = ''sections-fill'' then [Some ''Bellevue'']
                           else if i = ''departments-fill'' then [Some ''Ouest''] else [])\<rparr>"
  let ?f = "\<lparr>layer_id = ''sections-fill'', name = Some ''Bellevue''\<rparr>"
  have 1: "0 < length (surfaces (run ?evs))" by code_simp
  have 2: "?f \<in> set (queryRenderedFeatures (surfaces (run ?evs) ! 0) ?e hoverTargets)"
    by code_simp
  have 3: "layer_id ?f = ''sections-fill''" by simp
  show ?thesis
    using 1 2 3 hover_prefers_sections [OF 1 2 3] by simp
qed

subsection \<open>The visibility push of \<^verbatim>\<open>toggle\<close>\<close>

lemma on_surface_cong:
  "f (surfaces st ! m) = g (surfaces st ! m) \<Longrightarrow> on_surface m f st = on_surface m g st"
  by (simp add: on_surface_def)

lemma getLayer_issue: "layer_of c = [] \<Longrightarrow> getLayer (issue c s) = getLayer s"
  by (simp add: getLayer_def layer_ids_issue fun_eq_iff)

lemma calls_issue: "calls (issue c s) = calls s @ [c]"
  by (simp add: issue_def)

lemma issue_calls_update: "(issue c s)\<lparr>calls := x\<rparr> = s\<lparr>calls := x\<rparr>"
  by (simp add: issue_def)

lemma fold_push_None: "fold (push None v) ids st = st"
  by (induction ids) (simp_all add: push_def)

lemma fold_push_Some:
  assumes "m < length (surfaces st)"
  shows "fold (push (Some m) v) ids st =
         on_surface m (\<lambda>s. s\<lparr>calls := calls s @ map (\<lambda>j. SetLayoutProperty j ''visibility'' v)
                                                     (filter (getLayer s) ids)\<rparr>) st"
  using assms
proof (induction ids arbitrary: st)
  case Nil
  then show ?case by (simp add: on_surface_def)
next
  case (Cons i ids)
  show ?case
  proof (cases "getLayer (surfaces st ! m) i")
    case False
    then have "push (Some m) v i st = st" by (simp add: push_def)
    then show ?thesis
      using Cons False by (simp add: on_surface_def)
  next
    case True
    let ?c = "SetLayoutProperty i ''visibility'' v"
    have p: "push (Some m) v i st = on_surface m (issue ?c) st"
      using True by (simp add: push_def setLayoutProperty_def)
    have m': "m < length (surfaces (on_surface m (issue ?c) st))"
      using Cons.prems by (simp add: on_surface_fields)
    have g: "getLayer (issue ?c (surfaces st ! m)) = getLayer (surfaces st ! m)"
      by (simp add: getLayer_issue)
    let ?F = "\<lambda>ids s. s\<lparr>calls := calls s @ map (\<lambda>j. SetLayoutProperty j ''visibility'' v)
                                                       (filter (getLayer s) ids)\<rparr>"
    have "fold (push (Some m) v) (i # ids) st = fold (push (Some m) v) ids (on_surface m (issue ?c) st)"
      by (simp add: p)
    also have "\<dots> = on_surface m (?F ids) (on_surface m (issue ?c) st)"
      by (rule Cons.IH [OF m'])
    also have "\<dots> = on_surface m (?F ids \<circ> issue ?c) st"
      by (rule on_surface_twice)
    also have "\<dots> = on_surface m (?F (i # ids)) st"
      by (rule on_surface_cong) (simp add: g True calls_issue issue_calls_update)
    finally show ?thesis .
  qed
qed

lemma fold_push_length: "length (surfaces (fold (push mp v) ids st)) = length (surfaces st)"
  by (induction ids arbitrary: st) (simp_all add: push_def on_surface_fields split: option.splits)

lemma fold_push_other:
  "i \<noteq> m \<Longrightarrow> surfaces (fold (push (Some m) v) ids st) ! i = surfaces st ! i"
  by (induction ids arbitrary: st) (simp_all add: push_def on_surface_nth)

lemma rerun_surfaces_nth:
  assumes "i < length (surfaces st)"
  shows "surfaces (rerun st) ! i =
         (if cleanup st = Some i then remove (surfaces st ! i) else surfaces st ! i)"
  using assms
  by (auto simp: rerun_def useEffect_def run_cleanup_def Let_def nth_append on_surface_fields
      on_surface_nth split: option.splits)

lemma layout_calls_remove: "layout_calls (remove s) = layout_calls s"
  by (simp add: layout_calls_def remove_def issue_def)

lemma layout_calls_pushed:
  "layout_calls (s\<lparr>calls := calls s @ map (\<lambda>j. SetLayoutProperty j ''visibility'' v) js\<rparr>) =
   layout_calls s @ map (\<lambda>j. (j, v)) js"
  by (simp add: layout_calls_def comp_def concat_map_singleton)

lemma get_update: "get (AList.update k b al) k = b"
  by (simp add: get_def update_conv')

lemma toggle_layout_calls:
  assumes "i < length (surfaces st)"
  shows "layout_calls (surfaces (toggle k st) ! i) =
         layout_calls (surfaces st ! i) @
         (if mapRef st = Some i
          then map (\<lambda>j. (j, if get (visible st) k then ''none'' else ''visible''))
                   (filter (getLayer (surfaces st ! i)) (toggle_ids k))
          else [])"
proof -
  define v where "v = (if get (visible st) k then ''none'' else ''visible'')"
  define st1 where "st1 = fold (push (mapRef st) v) (toggle_ids k) st"
  have t: "toggle k st = rerun (st1\<lparr>visible := AList.update k (\<not> get (visible st) k) (visible st)\<rparr>)"
    by (simp add: toggle_def Let_def get_update st1_def v_def if_distrib [of "\<lambda>b. push _ b"] cong: if_cong)
  have len: "i < length (surfaces st1)"
    using assms by (simp add: st1_def fold_push_length)
  have "layout_calls (surfaces (toggle k st) ! i) = layout_calls (surfaces st1 ! i)"
    using len by (simp add: t rerun_surfaces_nth layout_calls_remove)
  also have "\<dots> = layout_calls (surfaces st ! i) @
      (if mapRef st = Some i then map (\<lambda>j. (j, v)) (filter (getLayer (surfaces st ! i)) (toggle_ids k))
       else [])"
  proof (cases "mapRef st")
    case None
    then show ?thesis by (simp add: st1_def fold_push_None)
  next
    case (Some m)
    show ?thesis
    proof (cases "m = i")
      case True
      then show ?thesis
        using Some assms
        by (simp add: st1_def fold_push_Some on_surface_nth layout_calls_pushed)
    next
      case False
      then show ?thesis
        using Some by (simp add: st1_def fold_push_other)
    qed
  qed
  finally show ?thesis by (simp add: v_def)
qed

lemma fold_push_containerRef: "containerRef (fold (push mp v) ids st) = containerRef st"
  by (induction ids arbitrary: st) (simp_all add: push_def on_surface_fields split: option.splits)

lemma rerun_new_surface:
  "length (surfaces (rerun st)) = length (surfaces st) + (if containerRef st then 1 else 0)"
  "containerRef st \<Longrightarrow> layout_calls (surfaces (rerun st) ! length (surfaces st)) = []"
  by (auto simp: rerun_def useEffect_def run_cleanup_def Let_def nth_append on_surface_fields
      layout_calls_def on_def addControl_def issue_def new_Map_def split: option.splits)

lemma toggle_new_surface:
  "length (surfaces (toggle k st)) = length (surfaces st) + (if containerRef st then 1 else 0)
   \<and> (if containerRef st
      then layout_calls (surfaces (toggle k st) ! length (surfaces st)) = [] else True)"
proof -
  define v where "v = (if get (AList.update k (\<not> get (visible st) k) (visible st)) k
                       then ''visible'' else ''none'')"
  define st1 where "st1 = (fold (push (mapRef st) v) (toggle_ids k) st)
                            \<lparr>visible := AList.update k (\<not> get (visible st) k) (visible st)\<rparr>"
  have l: "length (surfaces st1) = length (surfaces st)"
    and c: "containerRef st1 = containerRef st"
    by (simp_all add: st1_def fold_push_length fold_push_containerRef)
  have t: "toggle k st = rerun st1"
    by (simp only: toggle_def Let_def st1_def v_def)
  show ?thesis
    using rerun_new_surface [of st1] by (cases "containerRef st") (simp_all add: t l c)
qed

text \<open>
  C8. For every state and every layer key, \<^verbatim>\<open>toggle\<close> returns normally, and the
  visibility calls it issues are exactly these: to the map of \<^verbatim>\<open>mapRef\<close>, one call
  for each id of the key that is a registered layer of that map, in order, with the new
  visibility. Ids that are not registered are skipped; with a null ref, or on any other
  map, no call is issued; the map that the re-run of the effect creates receives none.
\<close>

theorem toggle_pushes_only_to_existing_layers:
  assumes "i < length (surfaces st)"
  shows "layout_calls (surfaces (toggle k st) ! i) =
         layout_calls (surfaces st ! i) @
         (if mapRef st = Some i
          then map (\<lambda>j. (j, if get (visible st) k then ''none'' else ''visible''))
                   (filter (getLayer (surfaces st ! i)) (toggle_ids k))
          else [])
         \<and> length (surfaces (toggle k st)) = length (surfaces st) + (if containerRef st then 1 else 0)
         \<and> (if containerRef st
            then layout_calls (surfaces (toggle k st) ! length (surfaces st)) = [] else True)"
  using toggle_layout_calls [OF assms, of k] toggle_new_surface [of k st] by simp

theorem toggle_pushes_only_to_existing_layers_witness:
  "0 < length (surfaces (run [Load 0]))
   \<and> mapRef (run [Load 0]) = Some 0
   \<and> filter (getLayer (surfaces (run [Load 0]) ! 0)) (toggle_ids departments) = []
   \<and> layout_calls (surfaces (toggle departments (run [Load 0])) ! 0) = []"
proof -
  have 1: "0 < length (surfaces (run [Load 0]))" by code_simp
  have 2: "mapRef (run [Load 0]) = Some 0" by code_simp
  have 3: "filter (getLayer (surfaces (run [Load 0]) ! 0)) (toggle_ids departments) = []"
    by code_simp
  have 4: "layout_calls (surfaces (run [Load 0]) ! 0) = []" by code_simp
  show ?thesis
    using 1 2 3 4 toggle_pushes_only_to_existing_layers [OF 1, of departments] by simp
qed

end
